theory Spec2Isabelle
  imports Main "HOL-Library.Char_ord" "HOL-Library.List_Lexorder" "HOL-Library.AList"
    "HOL-Library.Word"
begin

section \<open>Configuration (toolbox.py, lines 26-44)\<close>

text \<open>
  A \<open>Path\<close> is the list of its components. The component \<open>~\<close> stands for the expanded
  home directory, which is fixed for the lifetime of the process.
\<close>

type_synonym path = "string list"

definition APP_NAME :: string where
  "APP_NAME = ''toolbox''"

definition VERSION :: string where
  "VERSION = ''2.1.0''"

definition ROOT :: path where
  "ROOT = [''~'', ''.tools'', APP_NAME]"

definition TOOLS :: path where
  "TOOLS = ROOT @ [''tools'']"

definition BUILD :: path where
  "BUILD = ROOT @ [''build'']"

definition BIN :: path where
  "BIN = ROOT @ [''bin'']"

definition CFLAGS :: "string list" where
  "CFLAGS = [''-Wall'', ''-Wextra'', ''-Werror'', ''-O2'', ''-fstack-protector-strong'',
             ''-D_FORTIFY_SOURCE=2'', ''-fPIE'']"

definition LDFLAGS :: "string list" where
  "LDFLAGS = [''-pie'']"

definition str :: "path \<Rightarrow> string" where
  "str p = concat (map (\<lambda>c. CHR ''/'' # c) p)"

section \<open>The file system\<close>

text \<open>
  The file system is an association list from paths to nodes: a regular file with its
  content, a symbolic link with its target, or a directory. The directories \<open>ROOT\<close>,
  \<open>TOOLS\<close>, \<open>BUILD\<close> and \<open>BIN\<close> themselves are created by \<open>ensure_dirs\<close> before
  any command runs and are not entries of the list; a \<open>Dir\<close> node is a directory found
  where a file or link is expected.
\<close>

datatype node = File string | Symlink path | Dir

type_synonym fsys = "(path \<times> node) list"

datatype error =
    SystemExit string
  | FileExistsError
  | FileNotFoundError
  | IsADirectoryError
  | CalledProcessError

text \<open>\<open>die\<close> prints the diagnostic to the error stream and raises \<open>SystemExit(1)\<close>.\<close>

definition die :: "string \<Rightarrow> error" where
  "die msg = SystemExit (''[!] '' @ msg)"

text \<open>
  \<open>Path.exists\<close> follows symbolic links (it is \<open>os.stat\<close>); a missing target and a
  chain longer than the kernel's limit of 40 links both make it answer \<open>False\<close>.
\<close>

fun follow :: "nat \<Rightarrow> fsys \<Rightarrow> path \<Rightarrow> node option" where
  "follow 0 fs p = None"
| "follow (Suc k) fs p =
     (case map_of fs p of
        None \<Rightarrow> None
      | Some (Symlink q) \<Rightarrow> follow k fs q
      | Some nd \<Rightarrow> Some nd)"

definition path_exists :: "fsys \<Rightarrow> path \<Rightarrow> bool" where
  "path_exists fs p = (follow 41 fs p \<noteq> None)"

text \<open>\<open>Path.unlink\<close>: removes the entry itself, never the target of a link.\<close>

definition unlink :: "path \<Rightarrow> fsys \<Rightarrow> error + fsys" where
  "unlink p fs =
     (case map_of fs p of
        None \<Rightarrow> Inl FileNotFoundError
      | Some Dir \<Rightarrow> Inl IsADirectoryError
      | Some nd \<Rightarrow> Inr (AList.delete p fs))"

text \<open>\<open>Path.symlink_to\<close>: fails when the name is taken, also by a dangling link.\<close>

definition symlink_to :: "path \<Rightarrow> path \<Rightarrow> fsys \<Rightarrow> error + fsys" where
  "symlink_to link target fs =
     (case map_of fs link of
        None \<Rightarrow> Inr (AList.update link (Symlink target) fs)
      | Some nd \<Rightarrow> Inl FileExistsError)"

text \<open>\<open>os.replace\<close>: one rename, replacing whatever entry the destination has.\<close>

definition replace :: "path \<Rightarrow> path \<Rightarrow> fsys \<Rightarrow> error + fsys" where
  "replace src dst fs =
     (case map_of fs src of
        None \<Rightarrow> Inl FileNotFoundError
      | Some nd \<Rightarrow>
          (case map_of fs dst of
             Some Dir \<Rightarrow> Inl IsADirectoryError
           | other \<Rightarrow> Inr (AList.update dst nd (AList.delete src fs))))"

text \<open>The names of the entries of a directory.\<close>

definition listdir :: "fsys \<Rightarrow> path \<Rightarrow> string list" where
  "listdir fs d = remdups (map last (filter (\<lambda>p. p \<noteq> [] \<and> butlast p = d) (map fst fs)))"

section \<open>Name validation (toolbox.py, lines 35 and 96-99)\<close>

definition nl :: char where
  "nl = CHR 0x0A"

definition lower :: "char \<Rightarrow> bool" where
  "lower c = (CHR ''a'' \<le> c \<and> c \<le> CHR ''z'')"

definition digit :: "char \<Rightarrow> bool" where
  "digit c = (CHR ''0'' \<le> c \<and> c \<le> CHR ''9'')"

definition tail_char :: "char \<Rightarrow> bool" where
  "tail_char c = (lower c \<or> digit c \<or> c = CHR ''_'')"

text \<open>
  \<open>TOOL_RE.match(name)\<close> for the pattern \<open>^[a-z][a-z0-9_]*$\<close>. In Python's \<open>re\<close>,
  without the MULTILINE flag, \<open>$\<close> matches at the end of the string and also just
  before a newline that is the last character of the string. The star is greedy, and
  since a newline is no member of the class, giving characters back never helps.
\<close>

definition TOOL_RE_match :: "string \<Rightarrow> bool" where
  "TOOL_RE_match s =
     (case s of
        [] \<Rightarrow> False
      | c # cs \<Rightarrow> lower c \<and> (let r = dropWhile tail_char cs in r = [] \<or> r = [nl]))"

definition validate_tool :: "string \<Rightarrow> error + string" where
  "validate_tool name =
     (if \<not> TOOL_RE_match name then Inl (die ''Invalid tool name (lowercase, start with letter)'')
      else Inr name)"

text \<open>
  The grammar in the specification's words: lowercase letters, digits and underscore,
  starting with a lowercase letter.
\<close>

definition identifier_grammar :: "string \<Rightarrow> bool" where
  "identifier_grammar s = (s \<noteq> [] \<and> lower (hd s) \<and> list_all tail_char (tl s))"

section \<open>The registry listing (toolbox.py, lines 109-110)\<close>

text \<open>
  \<open>PurePath.stem\<close>: the name without its last suffix. A name whose only dot is its first
  or its last character has no suffix.
\<close>

definition rfind_dot :: "string \<Rightarrow> nat option" where
  "rfind_dot n =
     (let k = length (takeWhile (\<lambda>c. c \<noteq> CHR ''.'') (rev n))
      in if k = length n then None else Some (length n - 1 - k))"

definition stem :: "string \<Rightarrow> string" where
  "stem n =
     (case rfind_dot n of
        None \<Rightarrow> n
      | Some i \<Rightarrow> if 0 < i \<and> i < length n - 1 then take i n else n)"

definition endswith :: "string \<Rightarrow> string \<Rightarrow> bool" where
  "endswith n sfx = (length sfx \<le> length n \<and> drop (length n - length sfx) n = sfx)"

text \<open>\<open>TOOLS.glob("*.c")\<close>: every entry of the directory whose name ends in \<open>.c\<close>.\<close>

definition glob_c :: "fsys \<Rightarrow> path \<Rightarrow> string list" where
  "glob_c fs d = filter (\<lambda>n. endswith n ''.c'') (listdir fs d)"

definition list_tools :: "fsys \<Rightarrow> string list" where
  "list_tools fs = sort (map stem (glob_c fs TOOLS))"

section \<open>The earlier variant (manager.py, lines 14-17 and 55-59)\<close>

definition alpha :: "char \<Rightarrow> bool" where
  "alpha c = (lower c \<or> (CHR ''A'' \<le> c \<and> c \<le> CHR ''Z''))"

definition NAME_PATTERN_match :: "string \<Rightarrow> bool" where
  "NAME_PATTERN_match s =
     (case s of
        [] \<Rightarrow> False
      | c # cs \<Rightarrow> (alpha c \<or> c = CHR ''_'') \<and>
          (let r = dropWhile (\<lambda>x. alpha x \<or> digit x \<or> x = CHR ''_'') cs in r = [] \<or> r = [nl]))"

definition is_valid_tool_name :: "string \<Rightarrow> bool" where
  "is_valid_tool_name name = NAME_PATTERN_match name"

text \<open>The listing of \<open>construct\<close>: \<open>f[:-2]\<close> for the names that end in \<open>.c\<close> and are valid.\<close>

definition construct_tools :: "string list \<Rightarrow> string list" where
  "construct_tools names =
     sort (map (\<lambda>f. take (length f - 2) f)
            (filter (\<lambda>f. endswith f ''.c'' \<and> is_valid_tool_name (take (length f - 2) f)) names))"

section \<open>Atomic file writer (toolbox.py, lines 102-106)\<close>

text \<open>
  \<open>atomic_write\<close> is a sequence of file-system operations: the temporary file is created
  (exclusively, under a name no entry of the directory has), the data reaches it character
  by character, and one rename puts it at the target. Running a prefix of the sequence
  gives the state the file system is left in when the process is interrupted there.
\<close>

datatype fsop = Create path | Append path char | Replace path path

fun exec_op :: "fsop \<Rightarrow> fsys \<Rightarrow> error + fsys" where
  "exec_op (Create p) fs =
     (case map_of fs p of
        None \<Rightarrow> Inr (AList.update p (File []) fs)
      | Some nd \<Rightarrow> Inl FileExistsError)"
| "exec_op (Append p c) fs =
     (case map_of fs p of
        Some (File s) \<Rightarrow> Inr (AList.update p (File (s @ [c])) fs)
      | other \<Rightarrow> Inl FileNotFoundError)"
| "exec_op (Replace src dst) fs = replace src dst fs"

text \<open>An exception stops the sequence; what was done before it stays done.\<close>

fun run :: "fsop list \<Rightarrow> fsys \<Rightarrow> error option \<times> fsys" where
  "run [] fs = (None, fs)"
| "run (x # xs) fs =
     (case exec_op x fs of
        Inl e \<Rightarrow> (Some e, fs)
      | Inr fs' \<Rightarrow> run xs fs')"

definition atomic_write_ops :: "path \<Rightarrow> path \<Rightarrow> string \<Rightarrow> fsop list" where
  "atomic_write_ops tmp p data = Create tmp # map (Append tmp) data @ [Replace tmp p]"

text \<open>
  \<open>NamedTemporaryFile(dir=path.parent)\<close> tries the candidate names of its random name
  sequence in turn and takes the first that no entry of the directory has; the sequence
  \<open>cands\<close> is a parameter of the model.
\<close>

definition mkstemp :: "string list \<Rightarrow> path \<Rightarrow> fsys \<Rightarrow> path option" where
  "mkstemp cands d fs =
     map_option (\<lambda>n. d @ [n]) (find (\<lambda>n. map_of fs (d @ [n]) = None) cands)"

definition atomic_write :: "string list \<Rightarrow> path \<Rightarrow> string \<Rightarrow> fsys \<Rightarrow> error option \<times> fsys" where
  "atomic_write cands p data fs =
     (case mkstemp cands (butlast p) fs of
        None \<Rightarrow> (Some FileExistsError, fs)
      | Some tmp \<Rightarrow> run (atomic_write_ops tmp p data) fs)"

section \<open>Embedded C templates (toolbox.py, lines 117-221)\<close>

definition dq :: char where
  "dq = CHR 0x22"

definition bs :: char where
  "bs = CHR 0x5C"

text \<open>\<open>chr(10).join\<close>\<close>

definition join_lines :: "string list \<Rightarrow> string" where
  "join_lines ls = (case ls of [] \<Rightarrow> [] | l # r \<Rightarrow> l @ concat (map (\<lambda>x. nl # x) r))"

definition unlines :: "string list \<Rightarrow> string" where
  "unlines ls = concat (map (\<lambda>l. l @ [nl]) ls)"

definition tool_template :: "string \<Rightarrow> string" where
  "tool_template name = unlines
     [''#include <stdio.h>'',
      [],
      ''/* Optional:'',
      '' * const char *'' @ name @ ''_desc = '' @ [dq] @ ''Description'' @ [dq] @ '';'',
      '' */'',
      [],
      ''const char *'' @ name @ ''_help ='',
      ''    '' @ [dq] @ ''Usage: '' @ name @ '' [args]'' @ [bs] @ ''n'' @ [dq],
      ''    '' @ [dq] @ ''Description: '' @ name @ '' tool.'' @ [bs] @ ''n'' @ [dq],
      ''    '' @ [dq] @ ''Options:'' @ [bs] @ ''n'' @ [dq],
      ''    '' @ [dq] @ ''  -h, --help  Show this help.'' @ [bs] @ ''n'' @ [dq] @ '';'',
      [],
      ''int '' @ name @ ''_main(int argc, char **argv) {'',
      ''    (void)argc; (void)argv;'',
      ''    printf('' @ [dq] @ ''Running '' @ name @ [bs] @ ''n'' @ [dq] @ '');'',
      ''    return 0;'',
      ''}'']"

definition decls_of :: "string \<Rightarrow> string list" where
  "decls_of t =
     [''int '' @ t @ ''_main(int, char**);'',
      ''extern const char *'' @ t @ ''_desc __attribute__((weak));'',
      ''extern const char *'' @ t @ ''_help __attribute__((weak));'']"

definition entry_of :: "string \<Rightarrow> string" where
  "entry_of t =
     ''    {'' @ [dq] @ t @ [dq] @ '', '' @ t @ ''_main, &'' @ t @ ''_desc, &'' @ t @ ''_help},''"

definition dispatcher_text :: "string list \<Rightarrow> string list \<Rightarrow> string" where
  "dispatcher_text decls entries = unlines
     [[],
      ''#include <stdio.h>'',
      ''#include <string.h>'',
      ''#include <libgen.h>'',
      [],
      ''#define APP '' @ [dq] @ APP_NAME @ [dq],
      ''#define VER '' @ [dq] @ VERSION @ [dq],
      [],
      ''struct Tool {'',
      ''    const char *name;'',
      ''    int (*fn)(int,char**);'',
      ''    const char **desc;'',
      ''    const char **help;'',
      ''};'',
      [],
      join_lines decls,
      [],
      ''static struct Tool tools[] = {'',
      join_lines entries,
      ''    {NULL,NULL,NULL,NULL}'',
      ''};'',
      [],
      ''static void help() {'',
      ''    printf('' @ [dq] @ ''%s v%s'' @ [bs] @ ''n'' @ [dq] @ '', APP, VER);'',
      ''    printf('' @ [dq] @ ''Usage: %s <cmd> [args]'' @ [bs] @ ''n'' @ [bs] @ ''n'' @ [dq] @ '', APP);'',
      ''    for (int i=0; tools[i].name; i++) {'',
      ''        const char *d = (tools[i].desc && *tools[i].desc) ? *tools[i].desc : '' @ [dq] @ [dq] @ '';'',
      ''        printf('' @ [dq] @ ''  %-16s %s'' @ [bs] @ ''n'' @ [dq] @ '', tools[i].name, d);'',
      ''    }'',
      ''}'',
      [],
      ''static void tool_help(const char *name) {'',
      ''    for (int i=0; tools[i].name; i++) {'',
      ''        if (!strcmp(name, tools[i].name)) {'',
      ''            if (tools[i].desc && *tools[i].desc)'',
      ''                printf('' @ [dq] @ ''%s - %s'' @ [bs] @ ''n'' @ [dq] @ '', name, *tools[i].desc);'',
      ''            if (tools[i].help && *tools[i].help) {'',
      ''                printf('' @ [dq] @ ''%s'' @ [bs] @ ''n'' @ [dq] @ '', *tools[i].help);'',
      ''            } else {'',
      ''                printf('' @ [dq] @ ''Usage: %s [args]'' @ [bs] @ ''n'' @ [dq] @ '', name);'',
      ''            }'',
      ''            return;'',
      ''        }'',
      ''    }'',
      ''    printf('' @ [dq] @ ''Unknown command: %s'' @ [bs] @ ''n'' @ [dq] @ '', name);'',
      ''}'',
      [],
      ''static int dispatch(const char *name, int argc, char **argv) {'',
      ''    if (argc > 1 && (!strcmp(argv[1], '' @ [dq] @ ''--help'' @ [dq] @ '') || !strcmp(argv[1], '' @ [dq] @ ''-h'' @ [dq] @ ''))) {'',
      ''        tool_help(name);'',
      ''        return 0;'',
      ''    }'',
      ''    for (int i=0; tools[i].name; i++)'',
      ''        if (!strcmp(name, tools[i].name))'',
      ''            return tools[i].fn(argc, argv);'',
      ''    fprintf(stderr, '' @ [dq] @ ''Unknown command: %s'' @ [bs] @ ''n'' @ [dq] @ '', name);'',
      ''    return 1;'',
      ''}'',
      [],
      ''int main(int argc, char **argv) {'',
      ''    char *prog = basename(argv[0]);'',
      [],
      ''    if (argc > 1 && (!strcmp(argv[1], '' @ [dq] @ ''--help'' @ [dq] @ '') || !strcmp(argv[1], '' @ [dq] @ ''-h'' @ [dq] @ ''))) {'',
      ''        help(); return 0;'',
      ''    }'',
      [],
      ''    if (!strcmp(prog, APP)) {'',
      ''        if (argc < 2) { help(); return 0; }'',
      ''        return dispatch(argv[1], argc-1, argv+1);'',
      ''    }'',
      [],
      ''    return dispatch(prog, argc, argv);'',
      ''}'']"

definition dispatcher_template :: "string list \<Rightarrow> string" where
  "dispatcher_template tools =
     dispatcher_text (concat (map decls_of tools)) (map entry_of tools)"

section \<open>Commands (toolbox.py, lines 88-93 and 228-261)\<close>

text \<open>
  What the commands take from outside the file system: \<open>shutil.which\<close>, the name
  sequence of \<open>tempfile\<close>, and the compiler process, which on exit status 0 has written
  the binary it yields to the output path and on any other status raises
  \<open>CalledProcessError\<close>.
\<close>

record env =
  which :: "string \<Rightarrow> string option"
  tmpnames :: "string list"
  cc_run :: "string list \<Rightarrow> fsys \<Rightarrow> string option"

fun find_cc_from :: "(string \<Rightarrow> string option) \<Rightarrow> string list \<Rightarrow> error + string" where
  "find_cc_from w [] = Inl (die ''No C compiler found (gcc/clang)'')"
| "find_cc_from w (cc # ccs) =
     (case w cc of
        None \<Rightarrow> find_cc_from w ccs
      | Some p \<Rightarrow> if p \<noteq> [] then Inr p else find_cc_from w ccs)"

definition find_cc :: "(string \<Rightarrow> string option) \<Rightarrow> error + string" where
  "find_cc w = find_cc_from w [''gcc'', ''clang'']"

definition cmd_create :: "string list \<Rightarrow> string \<Rightarrow> fsys \<Rightarrow> error option \<times> fsys" where
  "cmd_create cands name fs =
     (case validate_tool name of
        Inl e \<Rightarrow> (Some e, fs)
      | Inr nm \<Rightarrow>
          (let p = TOOLS @ [nm @ ''.c'']
           in if path_exists fs p then (Some (die ''Tool already exists''), fs)
              else atomic_write cands p (tool_template nm) fs))"

text \<open>The installation loop, lines 254-258: one entry point per name, in order.\<close>

fun install :: "path \<Rightarrow> string list \<Rightarrow> fsys \<Rightarrow> error option \<times> fsys" where
  "install out [] fs = (None, fs)"
| "install out (t # ts) fs =
     (let link = BIN @ [t]
      in case (if path_exists fs link then unlink link fs else Inr fs) of
           Inl e \<Rightarrow> (Some e, fs)
         | Inr fs1 \<Rightarrow>
             (case symlink_to link out fs1 of
                Inl e \<Rightarrow> (Some e, fs1)
              | Inr fs2 \<Rightarrow> install out ts fs2))"

definition cmd_build :: "env \<Rightarrow> fsys \<Rightarrow> error option \<times> fsys" where
  "cmd_build e fs =
     (case find_cc (which e) of
        Inl err \<Rightarrow> (Some err, fs)
      | Inr cc \<Rightarrow>
          (let tools = list_tools fs
           in if tools = [] then (Some (die ''No tools to build''), fs)
              else
                (let main_c = BUILD @ [''main.c'']
                 in case atomic_write (tmpnames e) main_c (dispatcher_template tools) fs of
                      (Some err, fs1) \<Rightarrow> (Some err, fs1)
                    | (None, fs1) \<Rightarrow>
                        (let out = BUILD @ [APP_NAME];
                             cmd = [cc] @ CFLAGS @ [''-o'', str out, str main_c]
                                   @ map (\<lambda>t. str (TOOLS @ [t @ ''.c''])) tools @ LDFLAGS
                         in case cc_run e cmd fs1 of
                              None \<Rightarrow> (Some CalledProcessError, fs1)
                            | Some binary \<Rightarrow>
                                install out (tools @ [APP_NAME])
                                  (AList.update out (File binary) fs1)))))"

text \<open>The entry points installed in \<open>BIN\<close>, and what a path resolves to.\<close>

definition entry_points :: "fsys \<Rightarrow> string set" where
  "entry_points fs = set (listdir fs BIN)"

definition resolve :: "fsys \<Rightarrow> path \<Rightarrow> node option" where
  "resolve fs p = follow 41 fs p"

section \<open>The generated dispatcher (toolbox.py, lines 156-220)\<close>

text \<open>
  The C program of \<open>dispatcher_template\<close>, run on a dispatch table. A table entry has
  the tool's name, its entry function (from the argument vector it is passed to its
  return value), and the description and help text, which are absent when the weak
  symbol is unresolved or null. A run is the sequence of what the program prints and
  of the entry functions it calls, and the exit status.
\<close>

record Tool =
  t_name :: string
  t_fn :: "string list \<Rightarrow> 32 word"
  t_desc :: "string option"
  t_help :: "string option"

datatype event = Stdout string | Stderr string | Call string "string list"

text \<open>POSIX \<open>basename\<close>: the last component, trailing slashes dropped.\<close>

definition basename :: "string \<Rightarrow> string" where
  "basename p =
     (let q = rev (dropWhile (\<lambda>c. c = CHR ''/'') (rev p))
      in if p = [] then ''.''
         else if q = [] then ''/''
         else rev (takeWhile (\<lambda>c. c \<noteq> CHR ''/'') (rev q)))"

definition is_help_flag :: "string \<Rightarrow> bool" where
  "is_help_flag a = (a = ''--help'' \<or> a = ''-h'')"

text \<open>\<open>%-16s\<close>: left-justified in a field of 16.\<close>

definition pad16 :: "string \<Rightarrow> string" where
  "pad16 s = s @ replicate (16 - length s) CHR '' ''"

text \<open>The function \<open>help\<close> of the C program.\<close>

definition help_c :: "Tool list \<Rightarrow> event list" where
  "help_c tools =
     [Stdout (APP_NAME @ '' v'' @ VERSION @ [nl]),
      Stdout (''Usage: '' @ APP_NAME @ '' <cmd> [args]'' @ [nl, nl])]
     @ map (\<lambda>t. Stdout (''  '' @ pad16 (t_name t) @ '' ''
                          @ (case t_desc t of Some d \<Rightarrow> d | None \<Rightarrow> []) @ [nl])) tools"

fun tool_help :: "Tool list \<Rightarrow> string \<Rightarrow> event list" where
  "tool_help [] name = [Stdout (''Unknown command: '' @ name @ [nl])]"
| "tool_help (t # ts) name =
     (if name = t_name t
      then (case t_desc t of Some d \<Rightarrow> [Stdout (name @ '' - '' @ d @ [nl])] | None \<Rightarrow> [])
           @ [case t_help t of
                Some h \<Rightarrow> Stdout (h @ [nl])
              | None \<Rightarrow> Stdout (''Usage: '' @ name @ '' [args]'' @ [nl])]
      else tool_help ts name)"

definition dispatch :: "Tool list \<Rightarrow> string \<Rightarrow> string list \<Rightarrow> event list \<times> 32 word" where
  "dispatch tools name argv =
     (if length argv > 1 \<and> is_help_flag (argv ! 1) then (tool_help tools name, 0)
      else (case find (\<lambda>t. name = t_name t) tools of
              Some t \<Rightarrow> ([Call (t_name t) argv], t_fn t argv)
            | None \<Rightarrow> ([Stderr (''Unknown command: '' @ name @ [nl])], 1)))"

text \<open>An empty argument vector has a null \<open>argv[0]\<close>, whose \<open>basename\<close> is \<open>.\<close>\<close>

definition main :: "Tool list \<Rightarrow> string list \<Rightarrow> event list \<times> 32 word" where
  "main tools argv =
     (let prog = (case argv of [] \<Rightarrow> ''.'' | a # as \<Rightarrow> basename a)
      in if length argv > 1 \<and> is_help_flag (argv ! 1) then (help_c tools, 0)
         else if prog = APP_NAME
              then (if length argv < 2 then (help_c tools, 0)
                    else dispatch tools (argv ! 1) (tl argv))
         else dispatch tools prog argv)"

section \<open>Example states\<close>

text \<open>
  Concrete inputs for the statements below: a side-effect-free stub as entry function,
  two dispatch tables, two environments (one where \<open>gcc\<close> is found and compiles, one
  with no compiler), a registry with a stale entry point, one with a dangling entry
  point, and the state the build leaves the first in.
\<close>

definition stub_main :: "string list \<Rightarrow> 32 word" where
  "stub_main argv = 0"

definition ping_table :: "Tool list" where
  "ping_table = [\<lparr>t_name = ''ping'', t_fn = stub_main, t_desc = None, t_help = Some ''PING HELP''\<rparr>]"

definition app_table :: "Tool list" where
  "app_table = [\<lparr>t_name = ''toolbox'', t_fn = stub_main, t_desc = None, t_help = None\<rparr>]"

definition env_gcc :: env where
  "env_gcc = \<lparr>which = (\<lambda>c. if c = ''gcc'' then Some ''/usr/bin/gcc'' else None),
               tmpnames = [''tmpabcdefgh''],
               cc_run = (\<lambda>cmd fs. Some ''ELF'')\<rparr>"

definition fs_stale :: fsys where
  "fs_stale = [(TOOLS @ [''ping.c''], File ''int ping_main;''),
               (BIN @ [''old''], Symlink (BUILD @ [APP_NAME]))]"

definition fs_dangling :: fsys where
  "fs_dangling = [(TOOLS @ [''ping.c''], File ''int ping_main;''),
                  (BIN @ [''ping''], Symlink [''gone''])]"

definition env_no_cc :: env where
  "env_no_cc = \<lparr>which = (\<lambda>c. None), tmpnames = [''tmpabcdefgh''], cc_run = (\<lambda>cmd fs. None)\<rparr>"

definition built_stale :: fsys where
  "built_stale = [(TOOLS @ [''ping.c''], File ''int ping_main;''),
                  (BIN @ [''old''], Symlink (BUILD @ [APP_NAME])),
                  (BUILD @ [''main.c''], File (dispatcher_template [''ping''])),
                  (BUILD @ [APP_NAME], File ''ELF''),
                  (BIN @ [''ping''], Symlink (BUILD @ [APP_NAME])),
                  (BIN @ [APP_NAME], Symlink (BUILD @ [APP_NAME]))]"

section \<open>Properties of the file system model\<close>

lemma follow_absent: "map_of fs p = None \<Longrightarrow> follow (Suc k) fs p = None"
  by simp

lemma path_exists_absent: "map_of fs p = None \<Longrightarrow> \<not> path_exists fs p"
  by (simp add: path_exists_def eval_nat_numeral)

lemma path_exists_File: "map_of fs p = Some (File s) \<Longrightarrow> path_exists fs p"
  by (simp add: path_exists_def eval_nat_numeral)

lemma path_exists_Dir: "map_of fs p = Some Dir \<Longrightarrow> path_exists fs p"
  by (simp add: path_exists_def eval_nat_numeral)

lemma path_exists_entry: "path_exists fs p \<Longrightarrow> map_of fs p \<noteq> None"
  using path_exists_absent by blast

lemma path_exists_link_File:
  "map_of fs p = Some (Symlink q) \<Longrightarrow> map_of fs q = Some (File s) \<Longrightarrow> path_exists fs p"
  by (simp add: path_exists_def eval_nat_numeral)

lemma path_exists_dangling:
  "map_of fs p = Some (Symlink q) \<Longrightarrow> map_of fs q = None \<Longrightarrow> \<not> path_exists fs p"
  by (simp add: path_exists_def eval_nat_numeral)

lemma set_listdir: "set (listdir fs d) = {n. d @ [n] \<in> dom (map_of fs)}"
proof -
  have "\<And>p. p \<noteq> [] \<and> butlast p = d \<longleftrightarrow> p = d @ [last p]"
    by (metis append_butlast_last_id butlast_snoc snoc_eq_iff_butlast)
  then show ?thesis
    by (auto simp: listdir_def dom_map_of_conv_image_fst image_iff) force+
qed

section \<open>Properties of the commands\<close>

subsection \<open>Name validation\<close>

lemma lower_tail_char: "lower c \<Longrightarrow> tail_char c"
  by (simp add: tail_char_def)

lemma nl_not_tail_char: "\<not> tail_char nl"
  by (simp add: tail_char_def lower_def digit_def nl_def)

lemma dropWhile_Nil_iff: "dropWhile P xs = [] \<longleftrightarrow> list_all P xs"
  by (induction xs) auto

lemma dropWhile_single_iff:
  "\<not> P x \<Longrightarrow> dropWhile P xs = [x] \<longleftrightarrow> (\<exists>ys. xs = ys @ [x] \<and> list_all P ys)"
proof (induction xs)
  case Nil
  then show ?case by simp
next
  case (Cons a xs)
  show ?case
  proof (cases "P a")
    case True
    with Cons show ?thesis
      by (auto simp: Cons_eq_append_conv)
  next
    case False
    then show ?thesis
      by (auto simp: Cons_eq_append_conv)
  qed
qed

lemma TOOL_RE_match_iff:
  "TOOL_RE_match s \<longleftrightarrow> identifier_grammar s \<or> (\<exists>t. s = t @ [nl] \<and> identifier_grammar t)"
proof (cases s)
  case Nil
  then show ?thesis
    by (simp add: TOOL_RE_match_def identifier_grammar_def)
next
  case (Cons c cs)
  have a: "identifier_grammar (c # cs) \<longleftrightarrow> lower c \<and> list_all tail_char cs"
    by (simp add: identifier_grammar_def)
  have b: "(\<exists>t. c # cs = t @ [nl] \<and> identifier_grammar t) \<longleftrightarrow>
        lower c \<and> (\<exists>ys. cs = ys @ [nl] \<and> list_all tail_char ys)"
    by (auto simp: identifier_grammar_def Cons_eq_append_conv)
  have "TOOL_RE_match (c # cs) \<longleftrightarrow>
        lower c \<and> (list_all tail_char cs \<or> (\<exists>ys. cs = ys @ [nl] \<and> list_all tail_char ys))"
    by (simp add: TOOL_RE_match_def Let_def list_all_iff
        dropWhile_single_iff [of tail_char nl, OF nl_not_tail_char])
  then show ?thesis
    unfolding Cons a b by (simp only: conj_disj_distribL)
qed

lemma validate_tool_iff:
  "validate_tool s = Inr s \<longleftrightarrow> identifier_grammar s \<or> (\<exists>t. s = t @ [nl] \<and> identifier_grammar t)"
  by (simp add: validate_tool_def TOOL_RE_match_iff)

lemma validate_tool_result: "validate_tool s = Inr n \<Longrightarrow> n = s"
  by (simp add: validate_tool_def split: if_splits)

lemma validate_tool_grammar: "identifier_grammar s \<Longrightarrow> validate_tool s = Inr s"
  by (simp add: validate_tool_iff)

lemma validate_tool_reject:
  "validate_tool s \<noteq> Inr s \<Longrightarrow>
   validate_tool s = Inl (die ''Invalid tool name (lowercase, start with letter)'')"
  by (simp add: validate_tool_def split: if_splits)

text \<open>
  Claim C6: \<open>validate(s)\<close> succeeds exactly for the strings of the identifier grammar
  (a lowercase letter, then lowercase letters, digits and underscores). By
  \<open>validate_tool_iff\<close> the code accepts every such string, and also every such string
  followed by one newline, because \<open>$\<close> matches before a final newline: the name
  \<open>a\<close> with a newline appended is accepted and returned, and is not of the grammar.
\<close>

theorem validate_tool_accepts_trailing_newline:
  "validate_tool (''a'' @ [nl]) = Inr (''a'' @ [nl]) \<and> \<not> identifier_grammar (''a'' @ [nl])"
  by (simp add: validate_tool_def TOOL_RE_match_def identifier_grammar_def tail_char_def
      lower_def digit_def nl_def)

subsection \<open>The registry listing\<close>

lemma sorted_list_tools: "sorted (list_tools fs)"
  by (simp add: list_tools_def)

lemma set_list_tools:
  "set (list_tools fs) = stem ` {n. TOOLS @ [n] \<in> dom (map_of fs) \<and> endswith n ''.c''}"
  by (auto simp: list_tools_def glob_c_def set_listdir)

lemma construct_tools_valid: "n \<in> set (construct_tools names) \<Longrightarrow> is_valid_tool_name n"
  by (auto simp: construct_tools_def)

text \<open>
  Claim C7: \<open>list()\<close> returns the names sorted, and only the stems that pass name
  validation. The listing is sorted (\<open>sorted_list_tools\<close>), but \<open>list_tools\<close> applies
  no validation, unlike the listing of \<open>construct\<close> in manager.py
  (\<open>construct_tools_valid\<close>): a registry holding the file \<open>9x.c\<close> lists the name
  \<open>9x\<close>, which \<open>validate_tool\<close> rejects.
\<close>

theorem list_tools_keeps_invalid_stem:
  "list_tools [(TOOLS @ [''9x.c''], File [])] = [''9x'']
   \<and> validate_tool ''9x'' \<noteq> Inr ''9x''"
  by (simp add: list_tools_def glob_c_def listdir_def endswith_def stem_def rfind_dot_def
      validate_tool_def TOOL_RE_match_def lower_def TOOLS_def ROOT_def)

subsection \<open>Creating a tool\<close>

text \<open>
  Claim C8: for a valid name whose module file exists, \<open>create\<close> fails with the
  already-exists diagnostic and the file system, the module's content included, is what
  it was before the call.
\<close>

theorem cmd_create_existing:
  assumes "validate_tool n = Inr n"
    and "path_exists fs (TOOLS @ [n @ ''.c''])"
  shows "cmd_create cands n fs = (Some (die ''Tool already exists''), fs)"
  using assms by (simp add: cmd_create_def)

text \<open>
  Claim C8 at a concrete registry: \<open>ping.c\<close> exists and \<open>create ping\<close> is refused.
\<close>

theorem cmd_create_existing_witness:
  "validate_tool ''ping'' = Inr ''ping''
   \<and> path_exists [(TOOLS @ [''ping.c''], File ''int x;'')] (TOOLS @ [''ping.c''])
   \<and> cmd_create [''tmpabcdefgh''] ''ping'' [(TOOLS @ [''ping.c''], File ''int x;'')]
       = (Some (die ''Tool already exists''), [(TOOLS @ [''ping.c''], File ''int x;'')])"
proof -
  have v: "validate_tool ''ping'' = Inr ''ping''"
    by (simp add: validate_tool_def TOOL_RE_match_def lower_def tail_char_def digit_def)
  have x: "path_exists [(TOOLS @ [''ping.c''], File ''int x;'')] (TOOLS @ [''ping.c''])"
    by (simp add: path_exists_File)
  show ?thesis
    using v x cmd_create_existing [of "''ping''" "[(TOOLS @ [''ping.c''], File ''int x;'')]"
        "[''tmpabcdefgh'']"]
    by simp
qed

subsection \<open>Building with an empty registry\<close>

lemma find_cc_error:
  "find_cc w = Inl err \<Longrightarrow> err = die ''No C compiler found (gcc/clang)''"
  by (auto simp: find_cc_def split: option.splits if_splits)

text \<open>
  Claim C9, amended: with an empty registry \<open>build\<close> fails and leaves the file system
  as it was; the diagnostic is the no-tools one when a compiler is found, and the
  no-compiler one otherwise, since the compiler is looked up first.
\<close>

theorem cmd_build_empty_registry:
  assumes "list_tools fs = []"
  shows "cmd_build e fs =
           (case find_cc (which e) of
              Inl err \<Rightarrow> (Some (die ''No C compiler found (gcc/clang)''), fs)
            | Inr cc \<Rightarrow> (Some (die ''No tools to build''), fs))"
  using assms by (auto simp: cmd_build_def dest: find_cc_error split: sum.splits)

text \<open>
  Claim C9 as stated fails where no compiler is installed: the registry is empty and
  the build ends with the no-compiler diagnostic, not the no-tools one.
\<close>

theorem cmd_build_no_compiler_counterexample:
  "list_tools [] = []
   \<and> cmd_build env_no_cc [] = (Some (die ''No C compiler found (gcc/clang)''), [])
   \<and> die ''No C compiler found (gcc/clang)'' \<noteq> die ''No tools to build''"
  by (simp add: cmd_build_def find_cc_def list_tools_def glob_c_def listdir_def die_def
      env_no_cc_def)

text \<open>
  Claim C9, amended, at a concrete state: \<open>gcc\<close> is found and the registry is empty.
\<close>

theorem cmd_build_empty_registry_witness:
  "list_tools [] = []
   \<and> find_cc (which env_gcc) = Inr ''/usr/bin/gcc''
   \<and> cmd_build env_gcc [] = (Some (die ''No tools to build''), [])"
proof -
  have h: "list_tools [] = []"
    by (simp add: list_tools_def glob_c_def listdir_def)
  have g: "find_cc (which env_gcc) = Inr ''/usr/bin/gcc''"
    by (simp add: find_cc_def env_gcc_def)
  from h g cmd_build_empty_registry [OF h, of env_gcc] show ?thesis
    by simp
qed

subsection \<open>The atomic file writer\<close>

lemma run_append:
  "run (xs @ ys) fs = (case run xs fs of (None, fs') \<Rightarrow> run ys fs' | (Some e, fs') \<Rightarrow> (Some e, fs'))"
  by (induction xs arbitrary: fs) (auto split: sum.splits)

lemma run_appends:
  "map_of fs tmp = Some (File s) \<Longrightarrow>
   run (map (Append tmp) data) fs = (None, AList.update tmp (File (s @ data)) fs)"
proof (induction data arbitrary: s fs)
  case Nil
  then show ?case by (simp add: update_triv)
next
  case (Cons c data)
  have "map_of (AList.update tmp (File (s @ [c])) fs) tmp = Some (File (s @ [c]))"
    by (simp add: update_conv')
  from Cons.IH [OF this] Cons.prems show ?case by simp
qed

lemma run_create_appends:
  "map_of fs tmp = None \<Longrightarrow>
   run (Create tmp # map (Append tmp) data) fs = (None, AList.update tmp (File data) fs)"
  using run_appends [of "AList.update tmp (File []) fs" tmp "[]" data]
  by (simp add: update_conv')

lemma take_atomic_write_ops:
  "k \<le> length data \<Longrightarrow>
   take (Suc k) (atomic_write_ops tmp p data) = Create tmp # map (Append tmp) (take k data)"
  by (simp add: atomic_write_ops_def take_map)

lemma run_interrupted:
  assumes "map_of fs tmp = None" and "k < length (atomic_write_ops tmp p data)"
  shows "snd (run (take k (atomic_write_ops tmp p data)) fs) =
           (case k of 0 \<Rightarrow> fs | Suc j \<Rightarrow> AList.update tmp (File (take j data)) fs)"
proof (cases k)
  case 0
  then show ?thesis by simp
next
  case (Suc j)
  with assms(2) have "j \<le> length data"
    by (simp add: atomic_write_ops_def)
  then have "take k (atomic_write_ops tmp p data) = Create tmp # map (Append tmp) (take j data)"
    unfolding Suc by (rule take_atomic_write_ops)
  then show ?thesis
    unfolding Suc by (simp only: run_create_appends [OF assms(1)] snd_conv nat.case)
qed

lemma run_atomic_write_ops:
  assumes "map_of fs tmp = None"
  shows "run (atomic_write_ops tmp p data) fs =
           (case replace tmp p (AList.update tmp (File data) fs) of
              Inl e \<Rightarrow> (Some e, AList.update tmp (File data) fs)
            | Inr fs' \<Rightarrow> (None, fs'))"
proof -
  have "atomic_write_ops tmp p data = (Create tmp # map (Append tmp) data) @ [Replace tmp p]"
    by (simp add: atomic_write_ops_def)
  then show ?thesis
    using run_create_appends [OF assms, of data]
    by (simp add: run_append split: sum.splits)
qed

lemma mkstemp_fresh: "mkstemp cands d fs = Some tmp \<Longrightarrow> map_of fs tmp = None \<and> butlast tmp = d"
  by (auto simp: mkstemp_def find_Some_iff)

lemma mkstemp_Some:
  "c \<in> set cands \<Longrightarrow> map_of fs (d @ [c]) = None \<Longrightarrow> \<exists>tmp. mkstemp cands d fs = Some tmp"
  by (cases "find (\<lambda>n. map_of fs (d @ [n]) = None) cands") (auto simp: mkstemp_def find_None_iff)

text \<open>The net effect of a write whose rename is not refused.\<close>

lemma atomic_write_ok:
  assumes "mkstemp cands (butlast p) fs = Some tmp" and "map_of fs p \<noteq> Some Dir"
  shows "\<exists>fs'. atomic_write cands p data fs = (None, fs')
           \<and> map_of fs' = (map_of fs)(p \<mapsto> File data)"
proof -
  from assms(1) have fresh: "map_of fs tmp = None"
    by (simp add: mkstemp_fresh)
  let ?fs1 = "AList.update tmp (File data) fs"
  have dst: "map_of ?fs1 p \<noteq> Some Dir"
    using assms(2) by (auto simp: update_conv')
  have "replace tmp p ?fs1 = Inr (AList.update p (File data) (AList.delete tmp ?fs1))"
    using dst fresh by (auto simp: replace_def update_conv' split: option.splits node.splits if_splits)
  moreover have "map_of (AList.update p (File data) (AList.delete tmp ?fs1))
                   = (map_of fs)(p \<mapsto> File data)"
    using fresh by (auto simp: update_conv' delete_conv' fun_eq_iff)
  ultimately show ?thesis
    using assms(1) fresh by (simp add: atomic_write_def run_atomic_write_ops)
qed

lemma atomic_write_target:
  "map_of (snd (atomic_write cands p data fs)) p =
     (if fst (atomic_write cands p data fs) = None then Some (File data) else map_of fs p)"
proof (cases "mkstemp cands (butlast p) fs")
  case None
  then show ?thesis by (simp add: atomic_write_def)
next
  case (Some tmp)
  then have fresh: "map_of fs tmp = None"
    by (simp add: mkstemp_fresh)
  show ?thesis
  proof (cases "map_of fs p = Some Dir")
    case True
    with fresh have "tmp \<noteq> p" by auto
    with True fresh Some show ?thesis
      by (simp add: atomic_write_def run_atomic_write_ops replace_def update_conv')
  next
    case False
    from atomic_write_ok [OF Some False, of data] show ?thesis by auto
  qed
qed

text \<open>
  Claim C5: \<open>write(path, content)\<close> makes the content visible at the target either
  fully or not at all. The temporary file is in the directory of the target, the last
  operation of the write is the one rename onto the target, after every proper prefix of
  the operations (an interruption before the rename) the target's entry is what it was,
  and after the whole write the target holds the content if the write succeeded and is
  unchanged if it failed. The temporary file is a file other than the target: its name
  is \<open>tmp\<close> and eight random characters, the targets of this program end in \<open>.c\<close>.
\<close>

theorem atomic_write_all_or_nothing:
  assumes "mkstemp cands (butlast p) fs = Some tmp" and "tmp \<noteq> p"
  shows "butlast tmp = butlast p
       \<and> atomic_write cands p data fs = run (atomic_write_ops tmp p data) fs
       \<and> last (atomic_write_ops tmp p data) = Replace tmp p
       \<and> (\<forall>k < length (atomic_write_ops tmp p data).
            map_of (snd (run (take k (atomic_write_ops tmp p data)) fs)) p = map_of fs p)
       \<and> map_of (snd (atomic_write cands p data fs)) p =
           (if fst (atomic_write cands p data fs) = None then Some (File data) else map_of fs p)"
proof -
  from assms(1) have fresh: "map_of fs tmp = None" and dir: "butlast tmp = butlast p"
    by (simp_all add: mkstemp_fresh)
  have run: "atomic_write cands p data fs = run (atomic_write_ops tmp p data) fs"
    using assms(1) by (simp add: atomic_write_def)
  have rename: "last (atomic_write_ops tmp p data) = Replace tmp p"
    by (simp add: atomic_write_ops_def)
  have before: "map_of (snd (run (take k (atomic_write_ops tmp p data)) fs)) p = map_of fs p"
    if "k < length (atomic_write_ops tmp p data)" for k
    using run_interrupted [OF fresh that] assms(2) by (cases k) (simp_all add: update_conv')
  from dir run rename before atomic_write_target show ?thesis
    by blast
qed

text \<open>
  Claim C5 at a concrete write: \<open>main.c\<close> holds \<open>old\<close>, the new content is
  \<open>new\<close>; interrupted after two operations the target still holds \<open>old\<close>.
\<close>

theorem atomic_write_all_or_nothing_witness:
  "mkstemp [''tmpabcdefgh''] (butlast (BUILD @ [''main.c'']))
       [(BUILD @ [''main.c''], File ''old'')] = Some (BUILD @ [''tmpabcdefgh''])
   \<and> BUILD @ [''tmpabcdefgh''] \<noteq> BUILD @ [''main.c'']
   \<and> 2 < length (atomic_write_ops (BUILD @ [''tmpabcdefgh'']) (BUILD @ [''main.c'']) ''new'')
   \<and> map_of (snd (run (take 2 (atomic_write_ops (BUILD @ [''tmpabcdefgh''])
                                  (BUILD @ [''main.c'']) ''new''))
                     [(BUILD @ [''main.c''], File ''old'')])) (BUILD @ [''main.c''])
       = Some (File ''old'')
   \<and> map_of (snd (atomic_write [''tmpabcdefgh''] (BUILD @ [''main.c'']) ''new''
                     [(BUILD @ [''main.c''], File ''old'')])) (BUILD @ [''main.c''])
       = Some (File ''new'')"
proof -
  let ?p = "BUILD @ [''main.c'']" and ?tmp = "BUILD @ [''tmpabcdefgh'']"
  let ?fs = "[(?p, File ''old'')]"
  have m: "mkstemp [''tmpabcdefgh''] (butlast ?p) ?fs = Some ?tmp"
    by (simp add: mkstemp_def butlast_append)
  have d: "?tmp \<noteq> ?p"
    by simp
  have l: "2 < length (atomic_write_ops ?tmp ?p ''new'')"
    by (simp add: atomic_write_ops_def)
  have ok: "fst (atomic_write [''tmpabcdefgh''] ?p ''new'' ?fs) = None"
    using m by (simp add: atomic_write_def atomic_write_ops_def replace_def)
  note t = atomic_write_all_or_nothing [OF m d, of "''new''"]
  from t l have before: "map_of (snd (run (take 2 (atomic_write_ops ?tmp ?p ''new'')) ?fs)) ?p
                           = map_of ?fs ?p"
    by blast
  from t have "map_of (snd (atomic_write [''tmpabcdefgh''] ?p ''new'' ?fs)) ?p
                  = (if fst (atomic_write [''tmpabcdefgh''] ?p ''new'' ?fs) = None
                     then Some (File ''new'') else map_of ?fs ?p)"
    by (elim conjE)
  then have after: "map_of (snd (atomic_write [''tmpabcdefgh''] ?p ''new'' ?fs)) ?p
                           = Some (File ''new'')"
    by (simp only: ok simp_thms if_True)
  from before have "map_of (snd (run (take 2 (atomic_write_ops ?tmp ?p ''new'')) ?fs)) ?p
                      = Some (File ''old'')"
    by simp
  with m d l after show ?thesis
    by blast
qed

lemma cmd_create_succeeds:
  assumes "validate_tool n = Inr n" and "map_of fs (TOOLS @ [n @ ''.c'']) = None"
    and "c \<in> set cands" and "map_of fs (TOOLS @ [c]) = None"
  shows "\<exists>fs'. cmd_create cands n fs = (None, fs')"
proof -
  obtain tmp where "mkstemp cands (butlast (TOOLS @ [n @ ''.c''])) fs = Some tmp"
    using mkstemp_Some [OF assms(3), of fs TOOLS] assms(4) by (auto simp: butlast_append)
  from atomic_write_ok [OF this, of "tool_template n"] assms(1,2) show ?thesis
    by (auto simp: cmd_create_def path_exists_absent)
qed

text \<open>
  Claim C10: for a valid name with no entry in the registry, a successful \<open>create\<close>
  adds exactly one entry to the file system, the module source under the registry root
  with the skeleton as its content, and every other path (registry modules, build
  directory, entry points) is as before. By \<open>cmd_create_succeeds\<close> the call does
  succeed whenever some candidate temporary name is free.
\<close>

theorem cmd_create_new:
  assumes "validate_tool n = Inr n" and "map_of fs (TOOLS @ [n @ ''.c'']) = None"
    and "cmd_create cands n fs = (None, fs')"
  shows "map_of fs' (TOOLS @ [n @ ''.c'']) = Some (File (tool_template n))
       \<and> (\<forall>q. q \<noteq> TOOLS @ [n @ ''.c''] \<longrightarrow> map_of fs' q = map_of fs q)
       \<and> dom (map_of fs') = insert (TOOLS @ [n @ ''.c'']) (dom (map_of fs))"
proof -
  let ?p = "TOOLS @ [n @ ''.c'']"
  from assms have w: "atomic_write cands ?p (tool_template n) fs = (None, fs')"
    by (simp add: cmd_create_def path_exists_absent)
  then obtain tmp where "mkstemp cands (butlast ?p) fs = Some tmp"
    by (auto simp: atomic_write_def split: option.splits)
  from atomic_write_ok [OF this, of "tool_template n"] assms(2) w
  have "map_of fs' = (map_of fs)(?p \<mapsto> File (tool_template n))"
    by auto
  then show ?thesis
    by simp
qed

text \<open>
  Claim C10 at a concrete registry: \<open>ping.c\<close> exists, \<open>create pong\<close> succeeds.
\<close>

theorem cmd_create_new_witness:
  "validate_tool ''pong'' = Inr ''pong''
   \<and> map_of [(TOOLS @ [''ping.c''], File ''int x;'')] (TOOLS @ [''pong'' @ ''.c'']) = None
   \<and> cmd_create [''tmpabcdefgh''] ''pong'' [(TOOLS @ [''ping.c''], File ''int x;'')]
       = (None, [(TOOLS @ [''ping.c''], File ''int x;''),
                 (TOOLS @ [''pong.c''], File (tool_template ''pong''))])
   \<and> TOOLS @ [''ping.c''] \<noteq> TOOLS @ [''pong'' @ ''.c'']
   \<and> map_of [(TOOLS @ [''ping.c''], File ''int x;''),
             (TOOLS @ [''pong.c''], File (tool_template ''pong''))] (TOOLS @ [''ping.c''])
       = map_of [(TOOLS @ [''ping.c''], File ''int x;'')] (TOOLS @ [''ping.c''])"
proof -
  let ?fs = "[(TOOLS @ [''ping.c''], File ''int x;'')]"
  let ?fs' = "[(TOOLS @ [''ping.c''], File ''int x;''),
               (TOOLS @ [''pong.c''], File (tool_template ''pong''))]"
  have v: "validate_tool ''pong'' = Inr ''pong''"
    by (simp add: validate_tool_def TOOL_RE_match_def lower_def tail_char_def digit_def)
  have a: "map_of ?fs (TOOLS @ [''pong'' @ ''.c'']) = None"
    by simp
  have fresh: "map_of ?fs (TOOLS @ [''tmpabcdefgh'']) = None"
    by simp
  have c: "cmd_create [''tmpabcdefgh''] ''pong'' ?fs = (None, ?fs')"
    using v a by (simp add: cmd_create_def path_exists_absent atomic_write_def mkstemp_def
        butlast_append run_atomic_write_ops [OF fresh] replace_def)
  from cmd_create_new [OF v a c] v a c show ?thesis
    by simp
qed

subsection \<open>The generated dispatcher\<close>

lemma grammar_chars: "identifier_grammar s \<Longrightarrow> c \<in> set s \<Longrightarrow> tail_char c"
  by (cases s) (auto simp: identifier_grammar_def list_all_iff lower_tail_char)

lemma valid_name_chars:
  assumes "validate_tool t = Inr t" and "c \<in> set t"
  shows "tail_char c \<or> c = nl"
  using assms by (auto simp: validate_tool_iff dest: grammar_chars)

lemma valid_name_hd: "validate_tool t = Inr t \<Longrightarrow> t \<noteq> [] \<and> lower (hd t)"
  by (cases t) (auto simp: validate_tool_def TOOL_RE_match_def split: if_splits)

lemma valid_name_no_slash: "validate_tool t = Inr t \<Longrightarrow> CHR ''/'' \<notin> set t"
  by (auto dest!: valid_name_chars simp: tail_char_def lower_def digit_def nl_def)

lemma valid_name_not_help: "validate_tool t = Inr t \<Longrightarrow> \<not> is_help_flag t"
  by (auto dest!: valid_name_hd simp: is_help_flag_def lower_def)

lemma basename_plain: "s \<noteq> [] \<Longrightarrow> CHR ''/'' \<notin> set s \<Longrightarrow> basename s = s"
proof -
  assume ne: "s \<noteq> []" and ns: "CHR ''/'' \<notin> set s"
  have d: "dropWhile (\<lambda>c. c = CHR ''/'') (rev s) = rev s"
    using ne ns by (cases "rev s") auto
  have t: "takeWhile (\<lambda>c. c \<noteq> CHR ''/'') (rev s) = rev s"
    using ns by (auto simp: takeWhile_eq_all_conv)
  show ?thesis
    using ne by (simp add: basename_def d t)
qed

lemma basename_APP_NAME: "basename APP_NAME = APP_NAME"
  by (simp add: basename_def APP_NAME_def)

lemma main_entry_point:
  assumes "validate_tool t = Inr t" and "t \<noteq> APP_NAME"
    and "args = [] \<or> \<not> is_help_flag (hd args)"
  shows "main tools (t # args) = dispatch tools t (t # args)"
proof -
  have "basename t = t"
    using assms(1) by (simp add: basename_plain valid_name_hd valid_name_no_slash)
  with assms(2,3) show ?thesis
    by (cases args) (simp_all add: main_def)
qed

lemma main_canonical:
  assumes "\<not> is_help_flag t"
  shows "main tools (APP_NAME # t # args) = dispatch tools t (t # args)"
  using assms by (simp add: main_def basename_APP_NAME)

text \<open>
  Claim C2, amended: for every valid tool name other than the application's own name
  and every argument list that does not begin with a help flag, running the binary as
  \<open>[t, args...]\<close> is the same run (the same calls with the same argument vector, the
  same output, the same exit status) as running it as \<open>[app-name, t, args...]\<close>: both
  call the entry function of \<open>t\<close> on \<open>[t, args...]\<close>, or both report the unknown
  command.
\<close>

theorem entry_point_equals_canonical:
  assumes "validate_tool t = Inr t" and "t \<noteq> APP_NAME"
    and "args = [] \<or> \<not> is_help_flag (hd args)"
  shows "main tools (t # args) = main tools (APP_NAME # t # args)
       \<and> main tools (t # args) =
           (case find (\<lambda>x. t = t_name x) tools of
              Some x \<Rightarrow> ([Call (t_name x) (t # args)], t_fn x (t # args))
            | None \<Rightarrow> ([Stderr (''Unknown command: '' @ t @ [nl])], 1))"
proof -
  have "dispatch tools t (t # args) =
          (case find (\<lambda>x. t = t_name x) tools of
             Some x \<Rightarrow> ([Call (t_name x) (t # args)], t_fn x (t # args))
           | None \<Rightarrow> ([Stderr (''Unknown command: '' @ t @ [nl])], 1))"
    using assms(3) by (cases args) (simp_all add: dispatch_def split: option.splits)
  with main_entry_point [OF assms] main_canonical [OF valid_name_not_help [OF assms(1)]]
  show ?thesis by simp
qed

text \<open>
  Claim C2, amended, at \<open>ping -x\<close> and \<open>toolbox ping -x\<close>.
\<close>

theorem entry_point_equals_canonical_witness:
  "validate_tool ''ping'' = Inr ''ping'' \<and> ''ping'' \<noteq> APP_NAME
   \<and> ([''-x''] = [] \<or> \<not> is_help_flag (hd [''-x'']))
   \<and> main ping_table [''ping'', ''-x''] = main ping_table [APP_NAME, ''ping'', ''-x'']
   \<and> main ping_table [''ping'', ''-x''] = ([Call ''ping'' [''ping'', ''-x'']], 0)"
proof -
  have v: "validate_tool ''ping'' = Inr ''ping''"
    by (simp add: validate_tool_def TOOL_RE_match_def lower_def tail_char_def digit_def)
  have a: "''ping'' \<noteq> APP_NAME"
    by (simp add: APP_NAME_def)
  have h: "[''-x''] = [] \<or> \<not> is_help_flag (hd [''-x''])"
    by (simp add: is_help_flag_def)
  note t = entry_point_equals_canonical [OF v a h, of ping_table]
  from t have e: "main ping_table [''ping'', ''-x''] = main ping_table [APP_NAME, ''ping'', ''-x'']"
    by (elim conjE)
  from t have "main ping_table [''ping'', ''-x''] =
      (case find (\<lambda>x. ''ping'' = t_name x) ping_table of
         Some x \<Rightarrow> ([Call (t_name x) [''ping'', ''-x'']], t_fn x [''ping'', ''-x''])
       | None \<Rightarrow> ([Stderr (''Unknown command: '' @ ''ping'' @ [nl])], 1))"
    by (elim conjE)
  also have "\<dots> = ([Call ''ping'' [''ping'', ''-x'']], 0)"
    by (simp add: ping_table_def stub_main_def)
  finally have c: "main ping_table [''ping'', ''-x''] = ([Call ''ping'' [''ping'', ''-x'']], 0)" .
  from v a h e c show ?thesis
    by blast
qed

text \<open>
  Claim C2 as stated fails for a tool named like the application: \<open>toolbox\<close> is a
  valid tool name, the entry point of that name is the canonical one, so \<open>[toolbox]\<close>
  prints the command list while \<open>[toolbox, toolbox]\<close> calls the tool.
\<close>

theorem app_named_tool_counterexample:
  "validate_tool ''toolbox'' = Inr ''toolbox''
   \<and> main app_table [''toolbox''] = (help_c app_table, 0)
   \<and> main app_table [APP_NAME, ''toolbox''] = ([Call ''toolbox'' [''toolbox'']], 0)
   \<and> main app_table [''toolbox''] \<noteq> main app_table [APP_NAME, ''toolbox'']"
  by (simp add: validate_tool_def TOOL_RE_match_def lower_def tail_char_def digit_def
      main_def dispatch_def basename_def APP_NAME_def is_help_flag_def app_table_def
      stub_main_def help_c_def Let_def)

lemma main_help_first:
  "is_help_flag a \<Longrightarrow> main tools (p # a # rest) = (help_c tools, 0)"
  by (simp add: main_def)

lemma main_canonical_tool_help:
  "\<not> is_help_flag t \<Longrightarrow> is_help_flag a \<Longrightarrow>
   main tools (APP_NAME # t # a # rest) = (tool_help tools t, 0)"
  by (simp add: main_def basename_APP_NAME dispatch_def)

lemma help_c_no_call: "Call t argv \<notin> set (help_c tools)"
  by (auto simp: help_c_def)

lemma tool_help_no_call: "Call t argv \<notin> set (tool_help tools n)"
  by (induction tools) (auto split: option.splits)

text \<open>
  Claim C3: a help flag as first argument after the resolved command prints that tool's
  help and exits 0 without calling the tool. No help invocation calls an entry
  function (\<open>main_help_first\<close>, \<open>main_canonical_tool_help\<close>, \<open>help_c_no_call\<close>,
  \<open>tool_help_no_call\<close>), and \<open>toolbox ping -h\<close> prints the help of \<open>ping\<close>. But through
  the tool's own entry point, \<open>ping -h\<close>, the first test of \<open>main\<close> returns before the
  command is resolved, and what is printed is the application's usage listing, not the
  help text of \<open>ping\<close>.
\<close>

theorem entry_point_help_prints_app_usage:
  "main ping_table [''ping'', ''-h''] = (help_c ping_table, 0)
   \<and> tool_help ping_table ''ping'' = [Stdout (''PING HELP'' @ [nl])]
   \<and> help_c ping_table \<noteq> tool_help ping_table ''ping''
   \<and> main ping_table [APP_NAME, ''ping'', ''-h''] = (tool_help ping_table ''ping'', 0)"
  by (simp add: main_def dispatch_def basename_def APP_NAME_def is_help_flag_def
      ping_table_def help_c_def)

subsection \<open>Build and installation\<close>

lemma atomic_write_Dir:
  assumes "map_of fs p = Some Dir"
  shows "fst (atomic_write cands p data fs) \<noteq> None"
proof (cases "mkstemp cands (butlast p) fs")
  case None
  then show ?thesis by (simp add: atomic_write_def)
next
  case (Some tmp)
  then have fresh: "map_of fs tmp = None"
    by (simp add: mkstemp_fresh)
  with assms have "tmp \<noteq> p" by auto
  with assms fresh Some show ?thesis
    by (simp add: atomic_write_def run_atomic_write_ops replace_def update_conv')
qed

lemma atomic_write_success:
  assumes "atomic_write cands p data fs = (None, fs')"
  shows "map_of fs' = (map_of fs)(p \<mapsto> File data)"
proof -
  from assms obtain tmp where t: "mkstemp cands (butlast p) fs = Some tmp"
    by (auto simp: atomic_write_def split: option.splits)
  from assms atomic_write_Dir [of fs p cands data] have "map_of fs p \<noteq> Some Dir"
    by auto
  from atomic_write_ok [OF t this, of data] assms show ?thesis
    by auto
qed

lemma install_head:
  assumes "install out (t # ts) fs = (None, fs')"
  shows "\<exists>fs2. map_of fs2 = (map_of fs)(BIN @ [t] \<mapsto> Symlink out)
              \<and> install out ts fs2 = (None, fs')"
proof (cases "path_exists fs (BIN @ [t])")
  case True
  with assms obtain fs1 where u: "unlink (BIN @ [t]) fs = Inr fs1"
    by (auto simp: Let_def split: sum.splits)
  then have fs1: "fs1 = AList.delete (BIN @ [t]) fs"
    by (auto simp: unlink_def split: option.splits node.splits)
  then have "map_of fs1 (BIN @ [t]) = None"
    by (simp add: delete_conv')
  then have s: "symlink_to (BIN @ [t]) out fs1 = Inr (AList.update (BIN @ [t]) (Symlink out) fs1)"
    by (simp add: symlink_to_def)
  have "map_of (AList.update (BIN @ [t]) (Symlink out) fs1) = (map_of fs)(BIN @ [t] \<mapsto> Symlink out)"
    by (simp add: fs1 update_conv' delete_conv')
  with assms True u s show ?thesis
    by (auto simp: Let_def)
next
  case False
  with assms obtain fs2 where s: "symlink_to (BIN @ [t]) out fs = Inr fs2"
    and r: "install out ts fs2 = (None, fs')"
    by (auto simp: Let_def split: sum.splits)
  from s have "fs2 = AList.update (BIN @ [t]) (Symlink out) fs"
    by (auto simp: symlink_to_def split: option.splits)
  then have "map_of fs2 = (map_of fs)(BIN @ [t] \<mapsto> Symlink out)"
    by (simp add: update_conv')
  with r show ?thesis by blast
qed

lemma install_success:
  "install out ts fs = (None, fs') \<Longrightarrow>
   map_of fs' = (\<lambda>p. if p \<in> (\<lambda>t. BIN @ [t]) ` set ts then Some (Symlink out) else map_of fs p)"
proof (induction ts arbitrary: fs)
  case Nil
  then show ?case by simp
next
  case (Cons t ts)
  from install_head [OF Cons.prems] obtain fs2
    where m: "map_of fs2 = (map_of fs)(BIN @ [t] \<mapsto> Symlink out)"
      and r: "install out ts fs2 = (None, fs')"
    by blast
  from Cons.IH [OF r] m show ?case
    by (auto simp: fun_eq_iff)
qed

text \<open>One name of the loop, by the prior state of its entry point.\<close>

lemma install_absent:
  "map_of fs (BIN @ [t]) = None \<Longrightarrow>
   install out (t # ts) fs = install out ts (AList.update (BIN @ [t]) (Symlink out) fs)"
  by (simp add: path_exists_absent symlink_to_def)

lemma install_present:
  assumes "path_exists fs (BIN @ [t])" and "map_of fs (BIN @ [t]) \<noteq> Some Dir"
  shows "install out (t # ts) fs =
           install out ts (AList.update (BIN @ [t]) (Symlink out) (AList.delete (BIN @ [t]) fs))"
proof -
  from assms have "unlink (BIN @ [t]) fs = Inr (AList.delete (BIN @ [t]) fs)"
    by (auto simp: unlink_def dest: path_exists_entry split: option.splits node.splits)
  with assms(1) show ?thesis
    by (simp add: symlink_to_def delete_conv' Let_def)
qed

lemma install_dangling:
  assumes "\<not> path_exists fs (BIN @ [t])" and "map_of fs (BIN @ [t]) \<noteq> None"
  shows "install out (t # ts) fs = (Some FileExistsError, fs)"
  using assms by (auto simp: symlink_to_def)

lemma BIN_not_BUILD: "BIN \<noteq> BUILD" "BUILD \<noteq> BIN"
  by (simp_all add: BIN_def BUILD_def)

lemma cmd_build_success:
  assumes "cmd_build e fs = (None, fs')"
  shows "\<exists>cmd fs1 binary. cc_run e cmd fs1 = Some binary
           \<and> map_of fs' = (\<lambda>p. if p \<in> (\<lambda>t. BIN @ [t]) ` (set (list_tools fs) \<union> {APP_NAME})
                                 then Some (Symlink (BUILD @ [APP_NAME]))
                                 else ((map_of fs)(BUILD @ [''main.c''] \<mapsto>
                                         File (dispatcher_template (list_tools fs)),
                                       BUILD @ [APP_NAME] \<mapsto> File binary)) p)"
proof -
  let ?tools = "list_tools fs" and ?main_c = "BUILD @ [''main.c'']" and ?out = "BUILD @ [APP_NAME]"
  from assms obtain cc where cc: "find_cc (which e) = Inr cc"
    by (auto simp: cmd_build_def split: sum.splits)
  from assms cc have ne: "?tools \<noteq> []"
    by (auto simp: cmd_build_def split: if_splits)
  from assms cc ne obtain fs1
    where w: "atomic_write (tmpnames e) ?main_c (dispatcher_template ?tools) fs = (None, fs1)"
    by (auto simp: cmd_build_def Let_def split: prod.splits option.splits)
  let ?cmd = "[cc] @ CFLAGS @ [''-o'', str ?out, str ?main_c]
              @ map (\<lambda>t. str (TOOLS @ [t @ ''.c''])) ?tools @ LDFLAGS"
  from assms cc ne w obtain binary where b: "cc_run e ?cmd fs1 = Some binary"
    and i: "install ?out (?tools @ [APP_NAME]) (AList.update ?out (File binary) fs1) = (None, fs')"
    by (auto simp: cmd_build_def Let_def split: option.splits)
  from atomic_write_success [OF w]
  have m1: "map_of fs1 = (map_of fs)(?main_c \<mapsto> File (dispatcher_template ?tools))" .
  from install_success [OF i] m1
  have "map_of fs' = (\<lambda>p. if p \<in> (\<lambda>t. BIN @ [t]) ` (set ?tools \<union> {APP_NAME})
                            then Some (Symlink ?out)
                            else ((map_of fs)(?main_c \<mapsto> File (dispatcher_template ?tools),
                                  ?out \<mapsto> File binary)) p)"
    by (auto simp: fun_eq_iff update_conv')
  with b show ?thesis by blast
qed

lemmas dirs = TOOLS_def BIN_def BUILD_def ROOT_def APP_NAME_def

lemma list_tools_fs_stale: "list_tools fs_stale = [''ping'']"
  by (simp add: fs_stale_def list_tools_def glob_c_def listdir_def endswith_def stem_def
      rfind_dot_def dirs)

lemma list_tools_fs_dangling: "list_tools fs_dangling = [''ping'']"
  by (simp add: fs_dangling_def list_tools_def glob_c_def listdir_def endswith_def stem_def
      rfind_dot_def dirs)

lemma find_cc_env_gcc: "find_cc (which env_gcc) = Inr ''/usr/bin/gcc''"
  by (simp add: find_cc_def env_gcc_def)

lemma write_main_c:
  assumes "map_of fs (BUILD @ [''tmpabcdefgh'']) = None" and "map_of fs (BUILD @ [''main.c'']) = None"
  shows "atomic_write (tmpnames env_gcc) (BUILD @ [''main.c'']) data fs
           = (None, AList.update (BUILD @ [''main.c'']) (File data)
                      (AList.delete (BUILD @ [''tmpabcdefgh'']) 
                         (AList.update (BUILD @ [''tmpabcdefgh'']) (File data) fs)))"
  using assms
  by (simp add: atomic_write_def mkstemp_def env_gcc_def butlast_append run_atomic_write_ops
      replace_def update_conv')

lemma cmd_build_fs_stale: "cmd_build env_gcc fs_stale = (None, built_stale)"
proof -
  have w: "atomic_write (tmpnames env_gcc) (BUILD @ [''main.c'']) (dispatcher_template [''ping''])
             fs_stale
           = (None, fs_stale @ [(BUILD @ [''main.c''], File (dispatcher_template [''ping'']))])"
    by (subst write_main_c) (simp_all add: fs_stale_def dirs)
  have c: "cc_run env_gcc cmd fs = Some ''ELF''" for cmd fs
    by (simp add: env_gcc_def)
  have i: "install (BUILD @ [APP_NAME]) [''ping'', APP_NAME]
             (AList.update (BUILD @ [APP_NAME]) (File ''ELF'')
                (fs_stale @ [(BUILD @ [''main.c''], File (dispatcher_template [''ping'']))]))
           = (None, built_stale)"
    by (simp add: install_absent fs_stale_def built_stale_def dirs del: install.simps(2))
  show ?thesis
    by (simp add: cmd_build_def find_cc_env_gcc list_tools_fs_stale w c i Let_def
        del: install.simps)
qed

lemma entry_points_built_stale: "entry_points built_stale = {''old'', ''ping'', ''toolbox''}"
  by (auto simp: entry_points_def listdir_def built_stale_def dirs)

text \<open>
  Claim C1, amended: after a successful build the installed entry points are those
  installed before together with the registered tool names and the application's name,
  and every one of the latter is a link to the output path and resolves to the binary
  the compiler has just written there. Entry points of names no longer registered are
  not removed.
\<close>

theorem cmd_build_entry_points:
  assumes "cmd_build e fs = (None, fs')"
  shows "entry_points fs' = entry_points fs \<union> set (list_tools fs) \<union> {APP_NAME}
       \<and> (\<exists>cmd fs1 binary. cc_run e cmd fs1 = Some binary
            \<and> map_of fs' (BUILD @ [APP_NAME]) = Some (File binary)
            \<and> (\<forall>t \<in> set (list_tools fs) \<union> {APP_NAME}.
                  map_of fs' (BIN @ [t]) = Some (Symlink (BUILD @ [APP_NAME]))
                  \<and> resolve fs' (BIN @ [t]) = Some (File binary)))"
proof -
  let ?names = "set (list_tools fs) \<union> {APP_NAME}" and ?out = "BUILD @ [APP_NAME]"
  from cmd_build_success [OF assms] obtain cmd fs1 binary
    where b: "cc_run e cmd fs1 = Some binary"
      and m: "map_of fs' = (\<lambda>p. if p \<in> (\<lambda>t. BIN @ [t]) ` ?names then Some (Symlink ?out)
                                  else ((map_of fs)(BUILD @ [''main.c''] \<mapsto>
                                          File (dispatcher_template (list_tools fs)),
                                        ?out \<mapsto> File binary)) p)"
    by blast
  have img: "BIN @ [t] \<in> (\<lambda>t. BIN @ [t]) ` S \<longleftrightarrow> t \<in> S" for t S
    by auto
  have nimg: "BUILD @ [x] \<notin> (\<lambda>t. BIN @ [t]) ` S" for x S
    by (auto simp: BIN_not_BUILD)
  have out: "map_of fs' ?out = Some (File binary)"
    unfolding m by (simp only: nimg if_False) simp
  have link: "map_of fs' (BIN @ [t]) = Some (Symlink ?out)" if "t \<in> ?names" for t
    unfolding m using that by (simp only: img if_True)
  have other: "map_of fs' (BIN @ [t]) = map_of fs (BIN @ [t])" if "t \<notin> ?names" for t
    unfolding m using that by (simp only: img if_False) (simp add: BIN_not_BUILD)
  have res: "resolve fs' (BIN @ [t]) = Some (File binary)" if "t \<in> ?names" for t
    using link [OF that] out by (simp add: resolve_def eval_nat_numeral)
  have "t \<in> entry_points fs' \<longleftrightarrow> t \<in> entry_points fs \<union> ?names" for t
    using link [of t] other [of t]
    by (cases "t \<in> ?names") (auto simp: entry_points_def set_listdir dom_def)
  then have "entry_points fs' = entry_points fs \<union> ?names"
    by blast
  with b out link res show ?thesis
    by (simp only: Un_assoc) blast
qed

text \<open>
  Claim C1, amended, at a registry with the tool \<open>ping\<close> and a stale entry point
  \<open>old\<close>.
\<close>

theorem cmd_build_entry_points_witness:
  "cmd_build env_gcc fs_stale = (None, built_stale)
   \<and> entry_points built_stale = entry_points fs_stale \<union> set (list_tools fs_stale) \<union> {APP_NAME}
   \<and> entry_points built_stale = {''old'', ''ping'', ''toolbox''}
   \<and> ''ping'' \<in> set (list_tools fs_stale) \<union> {APP_NAME}
   \<and> resolve built_stale (BIN @ [''ping'']) = Some (File ''ELF'')"
proof -
  note t = cmd_build_entry_points [OF cmd_build_fs_stale]
  from t have e: "entry_points built_stale
                    = entry_points fs_stale \<union> set (list_tools fs_stale) \<union> {APP_NAME}"
    by (elim conjE)
  have p: "''ping'' \<in> set (list_tools fs_stale) \<union> {APP_NAME}"
    by (simp add: list_tools_fs_stale)
  have o: "map_of built_stale (BUILD @ [APP_NAME]) = Some (File ''ELF'')"
    by (simp add: built_stale_def dirs)
  from t obtain binary
    where o': "map_of built_stale (BUILD @ [APP_NAME]) = Some (File binary)"
      and links: "\<forall>t \<in> set (list_tools fs_stale) \<union> {APP_NAME}.
                    map_of built_stale (BIN @ [t]) = Some (Symlink (BUILD @ [APP_NAME]))
                    \<and> resolve built_stale (BIN @ [t]) = Some (File binary)"
    by blast
  from o o' have "binary = ''ELF''"
    by simp
  with links p have r: "resolve built_stale (BIN @ [''ping'']) = Some (File ''ELF'')"
    by blast
  from cmd_build_fs_stale e entry_points_built_stale p r show ?thesis
    by blast
qed

text \<open>
  Claim C1 as stated fails there: the build succeeds and \<open>old\<close> is still an installed
  entry point, so the set is not the tool names and the application's name.
\<close>

theorem stale_entry_point_counterexample:
  "fst (cmd_build env_gcc fs_stale) = None
   \<and> ''old'' \<in> entry_points (snd (cmd_build env_gcc fs_stale))
   \<and> ''old'' \<notin> set (list_tools fs_stale) \<union> {APP_NAME}
   \<and> entry_points (snd (cmd_build env_gcc fs_stale)) \<noteq> set (list_tools fs_stale) \<union> {APP_NAME}"
proof -
  have a: "fst (cmd_build env_gcc fs_stale) = None"
    by (simp add: cmd_build_fs_stale)
  have b: "''old'' \<in> entry_points (snd (cmd_build env_gcc fs_stale))"
    by (simp add: cmd_build_fs_stale entry_points_built_stale)
  have c: "''old'' \<notin> set (list_tools fs_stale) \<union> {APP_NAME}"
    by (simp add: list_tools_fs_stale APP_NAME_def)
  have d: "entry_points (snd (cmd_build env_gcc fs_stale))
             \<noteq> set (list_tools fs_stale) \<union> {APP_NAME}"
  proof
    assume "entry_points (snd (cmd_build env_gcc fs_stale))
              = set (list_tools fs_stale) \<union> {APP_NAME}"
    with b have "''old'' \<in> set (list_tools fs_stale) \<union> {APP_NAME}"
      by (simp only:)
    with c show False ..
  qed
  from a b c d show ?thesis
    by (intro conjI)
qed

lemma cmd_build_fs_dangling:
  "cmd_build env_gcc fs_dangling
     = (Some FileExistsError,
        fs_dangling @ [(BUILD @ [''main.c''], File (dispatcher_template [''ping''])),
                       (BUILD @ [APP_NAME], File ''ELF'')])"
proof -
  let ?fs1 = "fs_dangling @ [(BUILD @ [''main.c''], File (dispatcher_template [''ping'']))]"
  let ?fs2 = "fs_dangling @ [(BUILD @ [''main.c''], File (dispatcher_template [''ping''])),
                             (BUILD @ [APP_NAME], File ''ELF'')]"
  have w: "atomic_write (tmpnames env_gcc) (BUILD @ [''main.c'']) (dispatcher_template [''ping''])
             fs_dangling = (None, ?fs1)"
    by (subst write_main_c) (simp_all add: fs_dangling_def dirs)
  have c: "cc_run env_gcc cmd fs = Some ''ELF''" for cmd fs
    by (simp add: env_gcc_def)
  have u: "AList.update (BUILD @ [APP_NAME]) (File ''ELF'') ?fs1 = ?fs2"
    by (simp add: fs_dangling_def dirs)
  have d: "\<not> path_exists ?fs2 (BIN @ [''ping''])"
    by (rule path_exists_dangling [where q = "[''gone'']"]) (simp_all add: fs_dangling_def dirs)
  have "map_of ?fs2 (BIN @ [''ping'']) \<noteq> None"
    by (simp add: fs_dangling_def dirs)
  with d have i: "install (BUILD @ [APP_NAME]) [''ping'', APP_NAME] ?fs2
                    = (Some FileExistsError, ?fs2)"
    by (rule install_dangling)
  show ?thesis
    by (simp add: cmd_build_def find_cc_env_gcc list_tools_fs_dangling w c u i Let_def
        del: install.simps)
qed

text \<open>
  Claim C4: whatever the prior state of a name's entry point (absent, present, or
  dangling), the installation step removes it and creates a fresh one. For an absent
  and for a present, resolving entry point it does (\<open>install_absent\<close>,
  \<open>install_present\<close>). A dangling link is not seen by \<open>exists\<close>, so it is not
  removed, and creating the link raises \<open>FileExistsError\<close> (\<open>install_dangling\<close>):
  with \<open>ping\<close> a dangling link the build fails after compiling, the link is left as
  it was and the canonical entry point is never installed.
\<close>

theorem dangling_entry_point_not_replaced:
  "map_of fs_dangling (BIN @ [''ping'']) = Some (Symlink [''gone''])
   \<and> \<not> path_exists fs_dangling (BIN @ [''ping''])
   \<and> fst (cmd_build env_gcc fs_dangling) = Some FileExistsError
   \<and> map_of (snd (cmd_build env_gcc fs_dangling)) (BIN @ [''ping'']) = Some (Symlink [''gone''])
   \<and> map_of (snd (cmd_build env_gcc fs_dangling)) (BIN @ [APP_NAME]) = None"
proof -
  have "\<not> path_exists fs_dangling (BIN @ [''ping''])"
    by (rule path_exists_dangling [where q = "[''gone'']"]) (simp_all add: fs_dangling_def dirs)
  then show ?thesis
    by (simp add: cmd_build_fs_dangling) (simp add: fs_dangling_def dirs)
qed

end
